theory Spec2Isabelle
  imports Complex_Main "HOL-Library.Word" "HOL-Library.AList"
begin

section \<open>The automaton model of app.js (class DFA)\<close>

subsection \<open>Strings\<close>

text \<open>
  A JavaScript string is a sequence of 16-bit code units: \<open>s.length\<close> counts them,
  \<open>s[i]\<close> is the one-unit string at position \<open>i\<close>, \<open>s.substring(i)\<close> drops the
  first \<open>i\<close> units and \<open>+\<close> appends. String literals of the source are written
  \<open>ascii ''...''\<close>.
\<close>

type_synonym jsstring = "16 word list"

definition ascii :: "string \<Rightarrow> jsstring" where
  "ascii s = map of_char s"

text \<open>The literal "\<epsilon>" (U+03B5), one code unit.\<close>

definition epsilon :: jsstring where
  "epsilon = [0x03B5]"

text \<open>An apostrophe, as it occurs inside the template literals of the error messages.\<close>

definition apostrophe :: jsstring where
  "apostrophe = [0x27]"

text \<open>Truthiness of a property that is either absent or a string.\<close>

definition truthy :: "jsstring option \<Rightarrow> bool" where
  "truthy v = (case v of None \<Rightarrow> False | Some s \<Rightarrow> s \<noteq> [])"

text \<open>The decimal rendering of a counter value inside a template literal.\<close>

fun toString :: "nat \<Rightarrow> jsstring" where
  "toString n =
     (if n < 10 then [of_nat (48 + n)]
      else toString (n div 10) @ [of_nat (48 + n mod 10)])"

declare toString.simps [simp del]

subsection \<open>Data\<close>

text \<open>
  State objects are shared by reference: the collection, the start reference and the
  transition tables all point to the same objects, and the source compares them with
  \<open>===\<close>. So the objects live in a store addressed by references.

  A transition table is a plain object, created by \<open>{}\<close> and used as a dictionary from
  symbols to state objects. It has its own properties, kept as an association list
  (\<open>Object.keys\<close> is the list of its keys, whose order no operation below observes),
  and a prototype. The prototype is \<open>Object.prototype\<close> (\<open>None\<close>) until an assignment to
  the key \<open>__proto__\<close> replaces it by the assigned state object: that assignment runs
  the inherited setter and creates no own property. A read \<open>table[key]\<close> finds the own
  property, or else what the prototype chain has under that name.
\<close>

type_synonym ref = nat

record table =
  own :: "(jsstring \<times> ref) list"
  proto :: "ref option"

record State =
  state_id :: nat
  name :: jsstring
  state_x :: real
  state_y :: real
  radius :: real
  isStart :: bool
  isAccept :: bool
  transitions :: table

text \<open>
  The instance of class DFA together with the state objects it can reach. The alphabet
  is a \<open>Set\<close>: its elements in iteration (insertion) order. \<open>allocated\<close> is the number of
  state objects created so far, the next fresh reference. Identities and coordinates
  are numbers (no NaN); the bound of the enumeration is an integer.
\<close>

record DFA =
  heap :: "ref \<Rightarrow> State"
  allocated :: nat
  states :: "ref list"
  alphabet :: "jsstring list"
  startState :: "ref option"
  currentState :: "ref option"
  stateIdCounter :: nat

text \<open>
  The values that the variable \<open>current\<close> of simulate can hold, and that a read of a
  table at a key of one code unit can give: a state object, nothing, or a number (the
  coordinate \<open>x\<close> or \<open>y\<close> of a state object that has become the prototype of the table;
  no other property of a state object and none of \<open>Object.prototype\<close> has a name of one
  code unit).
\<close>

datatype jsval = Undefined | StateObject ref | Number real

definition truthy_val :: "jsval \<Rightarrow> bool" where
  "truthy_val v = (case v of Undefined \<Rightarrow> False | StateObject q \<Rightarrow> True | Number n \<Rightarrow> n \<noteq> 0)"

text \<open>\<open>table[c]\<close> for a key \<open>c\<close> of one code unit.\<close>

definition get_unit :: "DFA \<Rightarrow> table \<Rightarrow> 16 word \<Rightarrow> jsval" where
  "get_unit d t c =
     (case map_of (own t) [c] of
        Some r \<Rightarrow> StateObject r
      | None \<Rightarrow>
          (case proto t of
             None \<Rightarrow> Undefined
           | Some p \<Rightarrow>
               if [c] = ascii ''x'' then Number (state_x (heap d p))
               else if [c] = ascii ''y'' then Number (state_y (heap d p))
               else Undefined))"

text \<open>
  \<open>table['__proto__']\<close>, when it is a state object: an own property of that name if
  the table has one, else the prototype put there by an assignment. (\<open>None\<close>: it is
  \<open>Object.prototype\<close>.)
\<close>

definition get_proto :: "table \<Rightarrow> ref option" where
  "get_proto t =
     (case map_of (own t) (ascii ''__proto__'') of Some r \<Rightarrow> Some r | None \<Rightarrow> proto t)"

text \<open>
  \<open>table[symbol] = toState\<close>: for the key \<open>__proto__\<close> (unless the table has an own
  property of that name) the state object becomes the prototype; any other key is
  created or overwritten as an own property.
\<close>

definition set_entry :: "jsstring \<Rightarrow> ref \<Rightarrow> table \<Rightarrow> table" where
  "set_entry symb r t =
     (if symb = ascii ''__proto__'' \<and> map_of (own t) symb = None
      then t\<lparr>proto := Some r\<rparr>
      else t\<lparr>own := AList.update symb r (own t)\<rparr>)"

text \<open>\<open>current.name\<close> and \<open>current.isAccept\<close>: undefined on a number.\<close>

definition name_of :: "DFA \<Rightarrow> jsval \<Rightarrow> jsstring option" where
  "name_of d v = (case v of StateObject q \<Rightarrow> Some (name (heap d q)) | _ \<Rightarrow> None)"

definition isAccept_of :: "DFA \<Rightarrow> jsval \<Rightarrow> bool option" where
  "isAccept_of d v = (case v of StateObject q \<Rightarrow> Some (isAccept (heap d q)) | _ \<Rightarrow> None)"

datatype exn = TypeError

text \<open>\<open>new Set(iterable)\<close>: elements are added in order, a repeated one is skipped.\<close>

definition Set_add :: "'a \<Rightarrow> 'a list \<Rightarrow> 'a list" where
  "Set_add v s = (if v \<in> set s then s else s @ [v])"

definition new_Set :: "'a list \<Rightarrow> 'a list" where
  "new_Set vs = fold Set_add vs []"

definition empty_table :: table where
  "empty_table = \<lparr>own = [], proto = None\<rparr>"

definition blank_State :: State where
  "blank_State = \<lparr>state_id = 0, name = [], state_x = 0, state_y = 0, radius = 0,
     isStart = False, isAccept = False, transitions = empty_table\<rparr>"

subsection \<open>Construction and mutation\<close>

definition new_DFA :: DFA where
  "new_DFA = \<lparr>heap = (\<lambda>_. blank_State), allocated = 0, states = [],
     alphabet = new_Set [ascii ''0'', ascii ''1''], startState = None,
     currentState = None, stateIdCounter = 0\<rparr>"

text \<open>\<open>addState(x, y, name = null)\<close>; \<open>name || `q${id}`\<close> takes the default for null and for "".\<close>

definition addState :: "real \<Rightarrow> real \<Rightarrow> jsstring option \<Rightarrow> DFA \<Rightarrow> ref \<times> DFA" where
  "addState px py nm d =
     (let sid = stateIdCounter d;
          st = \<lparr>state_id = sid,
                name = (if truthy nm then the nm else ascii ''q'' @ toString sid),
                state_x = px, state_y = py, radius = 30,
                isStart = False, isAccept = False, transitions = empty_table\<rparr>;
          r = allocated d
      in (r, d\<lparr>heap := (heap d)(r := st), allocated := Suc r,
                states := states d @ [r], stateIdCounter := Suc sid\<rparr>))"

text \<open>\<open>Array.prototype.findIndex\<close>; the result -1 is \<open>None\<close>.\<close>

fun findIndex :: "('a \<Rightarrow> bool) \<Rightarrow> 'a list \<Rightarrow> nat option" where
  "findIndex p [] = None"
| "findIndex p (v # vs) = (if p v then Some 0 else map_option Suc (findIndex p vs))"

text \<open>
  The inner loop of removeState over \<open>Object.keys(s.transitions)\<close>, on the own
  properties: at an own key the read \<open>s.transitions[symbol]\<close> is the own value.
\<close>

definition delete_targets :: "ref \<Rightarrow> (jsstring \<times> ref) list \<Rightarrow> (jsstring \<times> ref) list" where
  "delete_targets st t =
     fold (\<lambda>symb t'. if map_of t' symb = Some st then AList.delete symb t' else t')
       (map fst t) t"

definition removeState :: "nat \<Rightarrow> DFA \<Rightarrow> DFA" where
  "removeState stateId d =
     (case findIndex (\<lambda>s. state_id (heap d s) = stateId) (states d) of
        None \<Rightarrow> d
      | Some index \<Rightarrow>
          (let st = states d ! index;
               d1 = (if startState d = Some st then d\<lparr>startState := None\<rparr> else d);
               d2 = d1\<lparr>heap :=
                      fold (\<lambda>s h. h(s := (h s)\<lparr>transitions := (transitions (h s))
                                       \<lparr>own := delete_targets st (own (transitions (h s)))\<rparr>\<rparr>))
                        (states d1) (heap d1)\<rparr>
           in d2\<lparr>states := take index (states d2) @ drop (Suc index) (states d2)\<rparr>))"

definition addTransition :: "ref \<Rightarrow> ref \<Rightarrow> jsstring \<Rightarrow> DFA \<Rightarrow> bool \<times> DFA" where
  "addTransition fromState toState symb d =
     (if symb \<in> set (alphabet d)
      then (True, d\<lparr>heap := (heap d)(fromState := (heap d fromState)
               \<lparr>transitions := set_entry symb toState (transitions (heap d fromState))\<rparr>)\<rparr>)
      else (False, d))"

text \<open>\<open>delete fromState.transitions[symbol]\<close> removes an own property only.\<close>

definition removeTransition :: "ref \<Rightarrow> jsstring \<Rightarrow> DFA \<Rightarrow> DFA" where
  "removeTransition fromState symb d =
     d\<lparr>heap := (heap d)(fromState := (heap d fromState)
          \<lparr>transitions := (transitions (heap d fromState))
             \<lparr>own := AList.delete symb (own (transitions (heap d fromState)))\<rparr>\<rparr>)\<rparr>"

text \<open>The inner loop of setAlphabet over \<open>Object.keys(state.transitions)\<close>.\<close>

definition delete_invalid :: "jsstring list \<Rightarrow> (jsstring \<times> ref) list \<Rightarrow> (jsstring \<times> ref) list" where
  "delete_invalid alph t =
     fold (\<lambda>symb t'. if symb \<notin> set alph then AList.delete symb t' else t') (map fst t) t"

definition setAlphabet :: "jsstring list \<Rightarrow> DFA \<Rightarrow> DFA" where
  "setAlphabet symbols d =
     (let d1 = d\<lparr>alphabet := new_Set symbols\<rparr>
      in d1\<lparr>heap :=
             fold (\<lambda>s h. h(s := (h s)\<lparr>transitions := (transitions (h s))
                              \<lparr>own := delete_invalid (alphabet d1) (own (transitions (h s)))\<rparr>\<rparr>))
               (states d1) (heap d1)\<rparr>)"

subsection \<open>Simulation\<close>

text \<open>
  A trace entry; \<open>state\<close> is \<open>current.name\<close>, undefined (\<open>None\<close>) when \<open>current\<close> is a
  number. The result object, with the type of its \<open>trace\<close> left open: the entries
  themselves, or the reference of the array that holds them.
\<close>

record trace_entry =
  state :: "jsstring option"
  symbol :: jsstring
  remaining :: jsstring
  step_error :: "jsstring option"

record 'tr sim_result =
  accepted :: "bool option"
  error :: "jsstring option"
  finalState :: "jsstring option"
  trace :: 'tr

text \<open>
  The for loop of simulate, from position \<open>i\<close> with the value of \<open>current\<close> and the
  entries pushed to \<open>trace\<close> so far. When \<open>current\<close> is a number, \<open>current.transitions\<close>
  is undefined and the read \<open>current.transitions[symbol]\<close> throws a TypeError.
\<close>

function sim_loop ::
  "DFA \<Rightarrow> jsstring \<Rightarrow> nat \<Rightarrow> jsval \<Rightarrow> trace_entry list \<Rightarrow> exn + trace_entry list sim_result" where
  "sim_loop d inputString i current tr =
     (if i < length inputString then
        (let symb = [inputString ! i] in
         if symb \<notin> set (alphabet d) then
           Inr \<lparr>accepted = Some False,
                error = Some (ascii ''Symbol '' @ apostrophe @ symb @ apostrophe
                              @ ascii '' not in alphabet''),
                finalState = None, trace = tr\<rparr>
         else
           (case current of
              StateObject q \<Rightarrow>
                (let target = get_unit d (transitions (heap d q)) (inputString ! i) in
                 if \<not> truthy_val target then
                   Inr \<lparr>accepted = Some False,
                        error = Some (ascii ''No transition from '' @ name (heap d q)
                                      @ ascii '' on symbol '' @ apostrophe @ symb @ apostrophe),
                        finalState = None,
                        trace = tr @ [\<lparr>state = Some (name (heap d q)), symbol = symb,
                                       remaining = drop (i + 1) inputString,
                                       step_error = Some (ascii ''No transition defined'')\<rparr>]\<rparr>
                 else
                   sim_loop d inputString (i + 1) target
                     (tr @ [\<lparr>state = name_of d target, symbol = symb,
                             remaining = drop (i + 1) inputString, step_error = None\<rparr>]))
            | _ \<Rightarrow> Inl TypeError))
      else
        (case current of
           Undefined \<Rightarrow> Inl TypeError
         | _ \<Rightarrow>
             Inr \<lparr>accepted = isAccept_of d current, error = None,
                  finalState = name_of d current, trace = tr\<rparr>))"
  by pat_completeness auto
termination
  by (relation "measure (\<lambda>(d, inputString, i, current, tr). length inputString - i)") auto

declare sim_loop.simps [simp del]

definition simulate :: "DFA \<Rightarrow> jsstring \<Rightarrow> exn + trace_entry list sim_result" where
  "simulate d inputString =
     (case startState d of
        None \<Rightarrow>
          Inr \<lparr>accepted = Some False, error = Some (ascii ''No start state defined''),
               finalState = None, trace = []\<rparr>
      | Some start \<Rightarrow>
          sim_loop d inputString 0 (StateObject start)
            [\<lparr>state = Some (name (heap d start)), symbol = ascii ''START'',
              remaining = inputString, step_error = None\<rparr>])"

subsection \<open>Simulation, with the array it builds in the store\<close>

text \<open>
  The same method as a transformer of the store. The store holds the model and the
  arrays that calls of simulate have created; \<open>const trace = []\<close> takes a fresh array,
  \<open>trace.push\<close> writes to it, and the result object refers to it. These are all the
  writes in the body of the method.
\<close>

record world =
  model :: DFA
  arrays :: "nat \<Rightarrow> trace_entry list"
  arrays_allocated :: nat

definition new_array :: "world \<Rightarrow> nat \<times> world" where
  "new_array w =
     (arrays_allocated w,
      w\<lparr>arrays := (arrays w)(arrays_allocated w := []),
        arrays_allocated := Suc (arrays_allocated w)\<rparr>)"

definition push :: "nat \<Rightarrow> trace_entry \<Rightarrow> world \<Rightarrow> world" where
  "push a e w = w\<lparr>arrays := (arrays w)(a := arrays w a @ [e])\<rparr>"

function sim_loop_st ::
  "jsstring \<Rightarrow> nat \<Rightarrow> jsval \<Rightarrow> nat \<Rightarrow> world \<Rightarrow> (exn + nat sim_result) \<times> world" where
  "sim_loop_st inputString i current tr w =
     (if i < length inputString then
        (let symb = [inputString ! i] in
         if symb \<notin> set (alphabet (model w)) then
           (Inr \<lparr>accepted = Some False,
                 error = Some (ascii ''Symbol '' @ apostrophe @ symb @ apostrophe
                               @ ascii '' not in alphabet''),
                 finalState = None, trace = tr\<rparr>, w)
         else
           (case current of
              StateObject q \<Rightarrow>
                (let target = get_unit (model w) (transitions (heap (model w) q))
                                (inputString ! i) in
                 if \<not> truthy_val target then
                   (let w1 = push tr \<lparr>state = Some (name (heap (model w) q)), symbol = symb,
                                       remaining = drop (i + 1) inputString,
                                       step_error = Some (ascii ''No transition defined'')\<rparr> w
                    in (Inr \<lparr>accepted = Some False,
                             error = Some (ascii ''No transition from ''
                                           @ name (heap (model w) q)
                                           @ ascii '' on symbol '' @ apostrophe @ symb
                                           @ apostrophe),
                             finalState = None, trace = tr\<rparr>, w1))
                 else
                   sim_loop_st inputString (i + 1) target tr
                     (push tr \<lparr>state = name_of (model w) target, symbol = symb,
                               remaining = drop (i + 1) inputString, step_error = None\<rparr> w))
            | _ \<Rightarrow> (Inl TypeError, w)))
      else
        (case current of
           Undefined \<Rightarrow> (Inl TypeError, w)
         | _ \<Rightarrow>
             (Inr \<lparr>accepted = isAccept_of (model w) current, error = None,
                   finalState = name_of (model w) current, trace = tr\<rparr>, w)))"
  by pat_completeness auto
termination
  by (relation "measure (\<lambda>(inputString, i, current, tr, w). length inputString - i)") auto

declare sim_loop_st.simps [simp del]

definition simulate_st :: "jsstring \<Rightarrow> world \<Rightarrow> (exn + nat sim_result) \<times> world" where
  "simulate_st inputString w =
     (case startState (model w) of
        None \<Rightarrow>
          (let (tr, w1) = new_array w
           in (Inr \<lparr>accepted = Some False, error = Some (ascii ''No start state defined''),
                    finalState = None, trace = tr\<rparr>, w1))
      | Some start \<Rightarrow>
          (let (tr, w1) = new_array w;
               w2 = push tr \<lparr>state = Some (name (heap (model w) start)),
                              symbol = ascii ''START'', remaining = inputString,
                              step_error = None\<rparr> w1
           in sim_loop_st inputString 0 (StateObject start) tr w2))"

text \<open>What a call hands to its caller: the exception, or the result with the entries of its trace.\<close>

definition returned :: "(exn + nat sim_result) \<times> world \<Rightarrow> exn + trace_entry list sim_result" where
  "returned c =
     (case fst c of
        Inl e \<Rightarrow> Inl e
      | Inr r \<Rightarrow> Inr \<lparr>accepted = accepted r, error = error r, finalState = finalState r,
                      trace = arrays (snd c) (trace r)\<rparr>)"

subsection \<open>Enumeration\<close>

text \<open>
  An entry of the result; \<open>accepted\<close> is the value of \<open>result.accepted && !result.error\<close>,
  which is undefined (\<open>None\<close>) when \<open>result.accepted\<close> is.
\<close>

record gen_entry =
  gen_string :: jsstring
  gen_accepted :: "bool option"

definition display :: "jsstring \<Rightarrow> jsstring" where
  "display current = (if current = [] then epsilon else current)"

definition entry_of :: "jsstring \<Rightarrow> trace_entry list sim_result \<Rightarrow> gen_entry" where
  "entry_of current result =
     \<lparr>gen_string = display current,
      gen_accepted =
        (case accepted result of
           None \<Rightarrow> None
         | Some a \<Rightarrow> if a then Some (\<not> truthy (error result)) else Some False)\<rparr>"

text \<open>
  The closure \<open>generate(current, length)\<close>; \<open>results\<close> is the array it pushes to and
  \<open>maxLength\<close> the integer bound of the enclosing call. An exception thrown by simulate
  ends the whole enumeration.
\<close>

function generate ::
  "DFA \<Rightarrow> int \<Rightarrow> jsstring \<Rightarrow> nat \<Rightarrow> gen_entry list \<Rightarrow> exn + gen_entry list" where
  "generate d maxLength current len results =
     (if int len > maxLength then Inr results
      else
        (case simulate d current of
           Inl e \<Rightarrow> Inl e
         | Inr result \<Rightarrow>
             (let results1 = results @ [entry_of current result]
              in if int len < maxLength
                 then fold (\<lambda>symb acc.
                              case acc of
                                Inl e \<Rightarrow> Inl e
                              | Inr rs \<Rightarrow> generate d maxLength (current @ symb) (len + 1) rs)
                        (alphabet d) (Inr results1)
                 else Inr results1)))"
  by pat_completeness auto
termination
  by (relation "measure (\<lambda>(d, maxLength, current, len, results). nat (maxLength - int len))") auto

declare generate.simps [simp del]

definition generateAllStrings :: "DFA \<Rightarrow> int \<Rightarrow> exn + gen_entry list" where
  "generateAllStrings d maxLength = generate d maxLength [] 0 []"

text \<open>The entry pushed for a string on which simulate returns.\<close>

definition entry_for :: "DFA \<Rightarrow> jsstring \<Rightarrow> gen_entry" where
  "entry_for d current = entry_of current (projr (simulate d current))"

subsection \<open>Notions used to state the properties\<close>

text \<open>
  The state reached from \<open>q\<close> by following the own entries of the transition tables
  along an input, if every step has one.
\<close>

fun reach :: "DFA \<Rightarrow> ref \<Rightarrow> jsstring \<Rightarrow> ref option" where
  "reach d q [] = Some q"
| "reach d q (c # cs) =
     (case map_of (own (transitions (heap d q))) [c] of
        None \<Rightarrow> None
      | Some q' \<Rightarrow> reach d q' cs)"

text \<open>The trace entry of the start, and the one recorded after consuming position \<open>j\<close>.\<close>

definition start_entry :: "DFA \<Rightarrow> ref \<Rightarrow> jsstring \<Rightarrow> trace_entry" where
  "start_entry d q0 inp =
     \<lparr>state = Some (name (heap d q0)), symbol = ascii ''START'', remaining = inp,
      step_error = None\<rparr>"

definition step_entry :: "DFA \<Rightarrow> ref \<Rightarrow> jsstring \<Rightarrow> nat \<Rightarrow> trace_entry" where
  "step_entry d q0 inp j =
     \<lparr>state = Some (name (heap d (the (reach d q0 (take (Suc j) inp))))), symbol = [inp ! j],
      remaining = drop (Suc j) inp, step_error = None\<rparr>"

text \<open>
  Sequences of at most \<open>m\<close> symbols in depth-first order: a sequence, then its
  extensions by each symbol in turn.
\<close>

fun preorder :: "'a list \<Rightarrow> nat \<Rightarrow> 'a list list" where
  "preorder A 0 = [Nil]"
| "preorder A (Suc m) = [] # concat (map (\<lambda>s. map ((#) s) (preorder A m)) A)"

text \<open>\<open>a\<close> comes before \<open>b\<close> in the iteration order \<open>A\<close>.\<close>

definition precedes :: "'a list \<Rightarrow> 'a \<Rightarrow> 'a \<Rightarrow> bool" where
  "precedes A a b = (\<exists>i j. i < j \<and> j < length A \<and> A ! i = a \<and> A ! j = b)"

subsection \<open>The automata of the concrete scenarios\<close>

text \<open>
  Alphabet \<open>{0, 1}\<close>, start state \<open>q0\<close>, accepting state \<open>q1\<close>; both states go to \<open>q1\<close> on
  \<open>1\<close> and to \<open>q0\<close> on \<open>0\<close>. In \<open>stuck\<close> the transitions of \<open>q0\<close> have been removed.
\<close>

definition scenario_q0 :: State where
  "scenario_q0 = \<lparr>state_id = 0, name = ascii ''q0'', state_x = 100, state_y = 100,
     radius = 30, isStart = True, isAccept = False,
     transitions = \<lparr>own = [(ascii ''1'', 1), (ascii ''0'', 0)], proto = None\<rparr>\<rparr>"

definition scenario_q1 :: State where
  "scenario_q1 = \<lparr>state_id = 1, name = ascii ''q1'', state_x = 200, state_y = 100,
     radius = 30, isStart = False, isAccept = True,
     transitions = \<lparr>own = [(ascii ''1'', 1), (ascii ''0'', 0)], proto = None\<rparr>\<rparr>"

definition scenario :: DFA where
  "scenario = \<lparr>heap = (\<lambda>_. blank_State)(0 := scenario_q0, Suc 0 := scenario_q1),
     allocated = 2, states = [0, 1], alphabet = [ascii ''0'', ascii ''1''],
     startState = Some 0, currentState = None, stateIdCounter = 2\<rparr>"

definition stuck :: DFA where
  "stuck = removeTransition 0 (ascii ''0'') (removeTransition 0 (ascii ''1'') scenario)"

text \<open>
  The scenario after \<open>setAlphabet(['0', '1', 'x', '__proto__'])\<close> and
  \<open>addTransition(q0, q1, '__proto__')\<close>: the table of \<open>q0\<close> has \<open>q1\<close> as its prototype.
\<close>

definition wide_alphabet :: "jsstring list" where
  "wide_alphabet = [ascii ''0'', ascii ''1'', ascii ''x'', ascii ''__proto__'']"

definition inherited :: DFA where
  "inherited = snd (addTransition 0 1 (ascii ''__proto__'') (setAlphabet wide_alphabet scenario))"

text \<open>A store with the scenario and one array from an earlier call.\<close>

definition scenario_world :: world where
  "scenario_world = \<lparr>model = scenario,
     arrays = (\<lambda>_. [])(0 := [\<lparr>state = Some (ascii ''q0''), symbol = ascii ''START'',
                              remaining = [], step_error = None\<rparr>]),
     arrays_allocated = 1\<rparr>"

lemmas scenario_defs =
  scenario_def scenario_q0_def scenario_q1_def blank_State_def empty_table_def ascii_def
  apostrophe_def epsilon_def

section \<open>Lemmas\<close>

subsection \<open>Sets\<close>

lemma set_fold_Set_add: "set (fold Set_add vs acc) = set vs \<union> set acc"
  by (induction vs arbitrary: acc) (auto simp: Set_add_def)

lemma distinct_fold_Set_add: "distinct acc \<Longrightarrow> distinct (fold Set_add vs acc)"
  by (induction vs arbitrary: acc) (auto simp: Set_add_def)

lemma set_new_Set: "set (new_Set vs) = set vs"
  by (simp add: new_Set_def set_fold_Set_add)

lemma distinct_new_Set: "distinct (new_Set vs)"
  by (simp add: new_Set_def distinct_fold_Set_add)

subsection \<open>The iterations over the state objects and their tables\<close>

lemma own_funpow:
  "((\<lambda>s. s\<lparr>transitions := (transitions s)\<lparr>own := F (own (transitions s))\<rparr>\<rparr>) ^^ k) s =
     s\<lparr>transitions := (transitions s)\<lparr>own := (F ^^ k) (own (transitions s))\<rparr>\<rparr>"
  by (induction k) auto

lemma heap_fold_apply:
  "fold (\<lambda>s h. h(s := g (h s))) rs h r = (g ^^ count_list rs r) (h r)"
  by (induction rs arbitrary: h) (auto simp: funpow_swap1)

lemma count_list_pos: "0 < count_list vs v \<longleftrightarrow> v \<in> set vs"
  using count_list_0_iff [of vs v] by auto

lemma heap_fold_own:
  "fold (\<lambda>s h. h(s := (h s)\<lparr>transitions := (transitions (h s))
                              \<lparr>own := F (own (transitions (h s)))\<rparr>\<rparr>)) rs h r =
     (h r)\<lparr>transitions := (transitions (h r))
              \<lparr>own := (F ^^ count_list rs r) (own (transitions (h r)))\<rparr>\<rparr>"
  using heap_fold_apply
    [of "\<lambda>s. s\<lparr>transitions := (transitions s)\<lparr>own := F (own (transitions s))\<rparr>\<rparr>" rs h r]
  by (simp add: own_funpow)

lemma fold_delete_invalid:
  "fold (\<lambda>symb t'. if symb \<notin> set alph then AList.delete symb t' else t') ks t =
     filter (\<lambda>(k, v). k \<in> set alph \<or> k \<notin> set ks) t"
proof (induction ks arbitrary: t)
  case Nil
  then show ?case by simp
next
  case (Cons k ks)
  show ?case
    by (auto simp: Cons.IH AList.delete_eq intro!: filter_cong)
qed

lemma delete_invalid_restrict: "delete_invalid alph t = AList.restrict (set alph) t"
  unfolding delete_invalid_def fold_delete_invalid AList.restrict_eq
  by (rule filter_cong) (auto simp: rev_image_eqI)

lemma map_of_delete_invalid_funpow:
  "map_of ((delete_invalid alph ^^ k) t) symb =
     (if 0 < k \<and> symb \<notin> set alph then None else map_of t symb)"
  by (induction k) (auto simp: delete_invalid_restrict restr_conv' restrict_map_def)

lemma map_of_fold_delete_targets:
  "map_of (fold (\<lambda>symb t'. if map_of t' symb = Some st then AList.delete symb t' else t') ks t) k =
     (if k \<in> set ks \<and> map_of t k = Some st then None else map_of t k)"
proof (induction ks arbitrary: t)
  case Nil
  then show ?case by simp
next
  case (Cons k0 ks)
  show ?case
    by (auto simp: Cons.IH delete_conv')
qed

lemma map_of_delete_targets:
  "map_of (delete_targets st t) k = (if map_of t k = Some st then None else map_of t k)"
proof -
  have "map_of t k = Some st \<Longrightarrow> k \<in> set (map fst t)"
    by (metis map_of_eq_None_iff option.distinct(1) set_map)
  then show ?thesis
    by (auto simp: delete_targets_def map_of_fold_delete_targets)
qed

lemma map_of_delete_targets_funpow:
  "map_of ((delete_targets st ^^ k) t) symb =
     (if 0 < k \<and> map_of t symb = Some st then None else map_of t symb)"
  by (induction k) (auto simp: map_of_delete_targets)

lemma findIndex_None: "findIndex p vs = None \<longleftrightarrow> (\<forall>v\<in>set vs. \<not> p v)"
  by (induction vs) auto

lemma findIndex_Some:
  "findIndex p vs = Some i \<Longrightarrow> i < length vs \<and> p (vs ! i) \<and> (\<forall>j<i. \<not> p (vs ! j))"
proof (induction vs arbitrary: i)
  case Nil
  then show ?case by simp
next
  case (Cons v vs)
  then show ?case
    by (auto split: if_splits simp: nth_Cons split: nat.splits)
qed

text \<open>
  What setAlphabet and removeState do to the own entries of the tables; neither touches
  a prototype.
\<close>

lemma setAlphabet_fields:
  "alphabet (setAlphabet A d) = new_Set A"
  "states (setAlphabet A d) = states d"
  "startState (setAlphabet A d) = startState d"
  by (simp_all add: setAlphabet_def Let_def)

lemma setAlphabet_own:
  "map_of (own (transitions (heap (setAlphabet A d) s))) symb =
     (if s \<in> set (states d) \<and> symb \<notin> set A then None
      else map_of (own (transitions (heap d s))) symb)"
  by (simp add: setAlphabet_def Let_def heap_fold_own
      map_of_delete_invalid_funpow set_new_Set count_list_pos)

lemma setAlphabet_proto:
  "proto (transitions (heap (setAlphabet A d) s)) = proto (transitions (heap d s))"
  by (simp add: setAlphabet_def Let_def heap_fold_own)

lemma removeState_absent:
  "\<forall>s\<in>set (states d). state_id (heap d s) \<noteq> stateId \<Longrightarrow> removeState stateId d = d"
  by (simp add: removeState_def findIndex_None [THEN iffD2])

lemma removeState_found:
  assumes "findIndex (\<lambda>s. state_id (heap d s) = stateId) (states d) = Some index"
  shows "states (removeState stateId d) = take index (states d) @ drop (Suc index) (states d)"
    and "startState (removeState stateId d) =
           (if startState d = Some (states d ! index) then None else startState d)"
    and "map_of (own (transitions (heap (removeState stateId d) s))) symb =
           (if s \<in> set (states d)
               \<and> map_of (own (transitions (heap d s))) symb = Some (states d ! index)
            then None else map_of (own (transitions (heap d s))) symb)"
    and "proto (transitions (heap (removeState stateId d) s)) = proto (transitions (heap d s))"
  using assms
  by (simp_all add: removeState_def Let_def heap_fold_own
      map_of_delete_targets_funpow count_list_pos)

lemma alphabet_addState: "alphabet (snd (addState px py nm d)) = alphabet d"
  by (simp add: addState_def Let_def)

lemma alphabet_addTransition: "alphabet (snd (addTransition fromState toState symb d)) = alphabet d"
  by (simp add: addTransition_def)

lemma alphabet_removeTransition: "alphabet (removeTransition fromState symb d) = alphabet d"
  by (simp add: removeTransition_def)

lemma alphabet_removeState: "alphabet (removeState stateId d) = alphabet d"
  by (simp add: removeState_def Let_def split: option.splits)

lemma alphabet_new_DFA: "alphabet new_DFA = [ascii ''0'', ascii ''1'']"
  by (simp add: new_DFA_def new_Set_def Set_add_def ascii_def)

lemma addTransition_ok:
  assumes "symb \<in> set (alphabet d)" and "symb \<noteq> ascii ''__proto__''"
  shows "fst (addTransition fromState toState symb d)
   \<and> map_of (own (transitions (heap (snd (addTransition fromState toState symb d)) fromState)))
       symb = Some toState"
  using assms by (simp add: addTransition_def set_entry_def update_conv')

subsection \<open>The simulation loop\<close>

lemma get_unit_own:
  "map_of (own t) [c] = Some r \<Longrightarrow> get_unit d t c = StateObject r"
  by (simp add: get_unit_def)

lemma get_unit_default:
  "proto t = None \<Longrightarrow>
   get_unit d t c = (case map_of (own t) [c] of None \<Rightarrow> Undefined | Some r \<Rightarrow> StateObject r)"
  by (simp add: get_unit_def split: option.splits)

lemma reach_append:
  "reach d q (xs @ ys) = (case reach d q xs of None \<Rightarrow> None | Some q' \<Rightarrow> reach d q' ys)"
  by (induction xs arbitrary: q) (auto split: option.splits)

lemma reach_snoc:
  "reach d q (xs @ [c]) =
     (case reach d q xs of
        None \<Rightarrow> None
      | Some q' \<Rightarrow> map_of (own (transitions (heap d q'))) [c])"
  by (simp add: reach_append split: option.splits)

lemma reach_take:
  assumes "reach d q0 (take k inp) = Some q" and "j \<le> k"
  shows "\<exists>qj. reach d q0 (take j inp) = Some qj"
proof -
  have "take k inp = take j inp @ take (k - j) (drop j inp)"
    using assms(2) by (metis le_add_diff_inverse take_add)
  with assms(1) show ?thesis
    by (auto simp: reach_append split: option.splits)
qed

lemma sim_loop_run:
  assumes "k \<le> length inp"
    and "\<forall>j<k. [inp ! j] \<in> set (alphabet d)"
    and "reach d q0 (take k inp) = Some q"
  shows "sim_loop d inp 0 (StateObject q0) tr =
           sim_loop d inp k (StateObject q) (tr @ map (step_entry d q0 inp) [0..<k])"
  using assms
proof (induction k arbitrary: q)
  case 0
  then show ?case by simp
next
  case (Suc k)
  from Suc.prems have lt: "k < length inp" by simp
  then have tk: "take (Suc k) inp = take k inp @ [inp ! k]"
    by (simp add: take_Suc_conv_app_nth)
  from Suc.prems(3) obtain q' where
    q': "reach d q0 (take k inp) = Some q'"
    and step: "map_of (own (transitions (heap d q'))) [inp ! k] = Some q"
    by (auto simp: tk reach_snoc split: option.splits)
  from Suc.prems have "\<forall>j<k. [inp ! j] \<in> set (alphabet d)" by simp
  with Suc.IH [OF _ _ q'] lt
  have "sim_loop d inp 0 (StateObject q0) tr =
          sim_loop d inp k (StateObject q') (tr @ map (step_entry d q0 inp) [0..<k])"
    by simp
  also have "\<dots> = sim_loop d inp (Suc k) (StateObject q)
                    ((tr @ map (step_entry d q0 inp) [0..<k]) @ [step_entry d q0 inp k])"
    using lt Suc.prems(2) Suc.prems(3) get_unit_own [OF step]
    by (subst sim_loop.simps) (simp add: step_entry_def truthy_val_def name_of_def)
  finally show ?case by simp
qed

lemma simulate_finish:
  assumes "startState d = Some q0"
    and "\<forall>c\<in>set inp. [c] \<in> set (alphabet d)"
    and "reach d q0 inp = Some q"
  shows "simulate d inp =
           Inr \<lparr>accepted = Some (isAccept (heap d q)), error = None,
                finalState = Some (name (heap d q)),
                trace = start_entry d q0 inp # map (step_entry d q0 inp) [0..<length inp]\<rparr>"
proof -
  have "sim_loop d inp 0 (StateObject q0) [start_entry d q0 inp] =
          sim_loop d inp (length inp) (StateObject q)
            ([start_entry d q0 inp] @ map (step_entry d q0 inp) [0..<length inp])"
    using assms by (intro sim_loop_run) auto
  then show ?thesis
    using assms(1)
    by (simp add: simulate_def start_entry_def sim_loop.simps [of _ _ "length inp"]
        name_of_def isAccept_of_def)
qed

lemma simulate_bad_symbol:
  assumes "startState d = Some q0"
    and "i < length inp"
    and "\<forall>j<i. [inp ! j] \<in> set (alphabet d)"
    and "reach d q0 (take i inp) = Some q"
    and "[inp ! i] \<notin> set (alphabet d)"
  shows "simulate d inp =
           Inr \<lparr>accepted = Some False,
                error = Some (ascii ''Symbol '' @ apostrophe @ [inp ! i] @ apostrophe
                              @ ascii '' not in alphabet''),
                finalState = None,
                trace = start_entry d q0 inp # map (step_entry d q0 inp) [0..<i]\<rparr>"
proof -
  have "sim_loop d inp 0 (StateObject q0) [start_entry d q0 inp] =
          sim_loop d inp i (StateObject q)
            ([start_entry d q0 inp] @ map (step_entry d q0 inp) [0..<i])"
    using assms by (intro sim_loop_run) auto
  then show ?thesis
    using assms(1,2,5) by (simp add: simulate_def start_entry_def sim_loop.simps [of _ _ i])
qed

text \<open>A missing own entry ends the walk when nothing is read through the prototype.\<close>

lemma simulate_no_transition:
  assumes "startState d = Some q0"
    and "i < length inp"
    and "\<forall>j<i. [inp ! j] \<in> set (alphabet d)"
    and "reach d q0 (take i inp) = Some q"
    and "[inp ! i] \<in> set (alphabet d)"
    and "get_unit d (transitions (heap d q)) (inp ! i) = Undefined"
  shows "simulate d inp =
           Inr \<lparr>accepted = Some False,
                error = Some (ascii ''No transition from '' @ name (heap d q)
                              @ ascii '' on symbol '' @ apostrophe @ [inp ! i] @ apostrophe),
                finalState = None,
                trace = start_entry d q0 inp # map (step_entry d q0 inp) [0..<i]
                        @ [\<lparr>state = Some (name (heap d q)), symbol = [inp ! i],
                            remaining = drop (i + 1) inp,
                            step_error = Some (ascii ''No transition defined'')\<rparr>]\<rparr>"
proof -
  have "sim_loop d inp 0 (StateObject q0) [start_entry d q0 inp] =
          sim_loop d inp i (StateObject q)
            ([start_entry d q0 inp] @ map (step_entry d q0 inp) [0..<i])"
    using assms by (intro sim_loop_run) auto
  then show ?thesis
    using assms(1,2,5,6)
    by (simp add: simulate_def start_entry_def sim_loop.simps [of _ _ i] truthy_val_def)
qed

text \<open>The entries recorded for a walkable prefix of \<open>k\<close> symbols, read by position.\<close>

lemma recorded_entries:
  assumes "reach d q0 (take k inp) = Some q"
    and "tr = start_entry d q0 inp # map (step_entry d q0 inp) [0..<k] @ rest"
  shows "tr ! 0 = \<lparr>state = Some (name (heap d q0)), symbol = ascii ''START'', remaining = inp,
                   step_error = None\<rparr>"
    and "\<forall>j<k. \<exists>qj. reach d q0 (take (Suc j) inp) = Some qj \<and>
           tr ! Suc j = \<lparr>state = Some (name (heap d qj)), symbol = [inp ! j],
                         remaining = drop (Suc j) inp, step_error = None\<rparr>"
proof -
  show "tr ! 0 = \<lparr>state = Some (name (heap d q0)), symbol = ascii ''START'', remaining = inp,
                  step_error = None\<rparr>"
    by (simp add: assms(2) start_entry_def)
  show "\<forall>j<k. \<exists>qj. reach d q0 (take (Suc j) inp) = Some qj \<and>
          tr ! Suc j = \<lparr>state = Some (name (heap d qj)), symbol = [inp ! j],
                        remaining = drop (Suc j) inp, step_error = None\<rparr>"
  proof (intro allI impI)
    fix j assume j: "j < k"
    then obtain qj where qj: "reach d q0 (take (Suc j) inp) = Some qj"
      using reach_take [OF assms(1), of "Suc j"] by auto
    have "tr ! Suc j = step_entry d q0 inp j"
      using j by (simp add: assms(2) nth_append)
    with qj show "\<exists>qj. reach d q0 (take (Suc j) inp) = Some qj \<and>
          tr ! Suc j = \<lparr>state = Some (name (heap d qj)), symbol = [inp ! j],
                        remaining = drop (Suc j) inp, step_error = None\<rparr>"
      by (simp add: step_entry_def)
  qed
qed

text \<open>With every prototype the default one, \<open>current\<close> stays a state object and nothing is thrown.\<close>

lemma sim_loop_returns:
  assumes "\<forall>r. proto (transitions (heap d r)) = None"
  shows "\<exists>res. sim_loop d inp i (StateObject q) tr = Inr res"
proof (induction "length inp - i" arbitrary: i q tr)
  case 0
  then show ?case
    by (subst sim_loop.simps) simp
next
  case (Suc n)
  then have lt: "i < length inp" and n: "n = length inp - (i + 1)" by simp_all
  show ?case
  proof (cases "map_of (own (transitions (heap d q))) [inp ! i]")
    case None
    then have "get_unit d (transitions (heap d q)) (inp ! i) = Undefined"
      using assms by (simp add: get_unit_default)
    then show ?thesis
      using lt by (subst sim_loop.simps) (simp add: Let_def truthy_val_def)
  next
    case (Some q')
    then have g: "get_unit d (transitions (heap d q)) (inp ! i) = StateObject q'"
      by (rule get_unit_own)
    from Suc.hyps(1) [OF n, of q'] show ?thesis
      using lt g by (subst sim_loop.simps) (simp add: Let_def truthy_val_def)
  qed
qed

lemma simulate_returns:
  assumes "\<forall>r. proto (transitions (heap d r)) = None"
  shows "\<exists>res. simulate d inp = Inr res"
  using sim_loop_returns [OF assms] by (simp add: simulate_def split: option.splits)

subsection \<open>The loop on the store\<close>

lemma push_fields:
  "model (push a e w) = model w"
  "arrays_allocated (push a e w) = arrays_allocated w"
  "arrays (push a e w) a = arrays w a @ [e]"
  "b \<noteq> a \<Longrightarrow> arrays (push a e w) b = arrays w b"
  by (simp_all add: push_def)

lemma sim_loop_st_spec:
  "model (snd (sim_loop_st inp i cur a w)) = model w
   \<and> arrays_allocated (snd (sim_loop_st inp i cur a w)) = arrays_allocated w
   \<and> (\<forall>b. b \<noteq> a \<longrightarrow> arrays (snd (sim_loop_st inp i cur a w)) b = arrays w b)
   \<and> returned (sim_loop_st inp i cur a w) = sim_loop (model w) inp i cur (arrays w a)"
proof (induction "length inp - i" arbitrary: i cur w)
  case 0
  then have "\<not> i < length inp" by simp
  then show ?case
    by (subst (1 2 3 4) sim_loop_st.simps, subst sim_loop.simps)
       (simp add: returned_def split: jsval.splits)
next
  case (Suc n)
  then have lt: "i < length inp" and n: "n = length inp - (i + 1)" by simp_all
  show ?case
  proof (cases "[inp ! i] \<in> set (alphabet (model w))")
    case False
    then show ?thesis
      using lt by (subst (1 2 3 4) sim_loop_st.simps, subst sim_loop.simps)
                  (simp add: returned_def Let_def)
  next
    case inA: True
    show ?thesis
    proof (cases cur)
      case Undefined
      then show ?thesis
        using lt inA by (subst (1 2 3 4) sim_loop_st.simps, subst sim_loop.simps)
                        (simp add: returned_def Let_def)
    next
      case (Number v)
      then show ?thesis
        using lt inA by (subst (1 2 3 4) sim_loop_st.simps, subst sim_loop.simps)
                        (simp add: returned_def Let_def)
    next
      case (StateObject q)
      let ?target = "get_unit (model w) (transitions (heap (model w) q)) (inp ! i)"
      show ?thesis
      proof (cases "truthy_val ?target")
        case False
        then show ?thesis
          using lt inA StateObject
          by (subst (1 2 3 4) sim_loop_st.simps, subst sim_loop.simps)
             (simp add: returned_def Let_def push_fields)
      next
        case True
        let ?e = "\<lparr>state = name_of (model w) ?target, symbol = [inp ! i],
                    remaining = drop (i + 1) inp, step_error = None\<rparr>"
        have st: "sim_loop_st inp i cur a w = sim_loop_st inp (i + 1) ?target a (push a ?e w)"
          using lt inA StateObject True
          by (subst sim_loop_st.simps) (simp add: Let_def)
        have pu: "sim_loop (model w) inp i cur (arrays w a) =
                    sim_loop (model w) inp (i + 1) ?target (arrays w a @ [?e])"
          using lt inA StateObject True
          by (subst sim_loop.simps) (simp add: Let_def)
        from Suc.hyps(1) [OF n, of ?target "push a ?e w"] show ?thesis
          unfolding st pu by (simp add: push_fields)
      qed
    qed
  qed
qed

lemma simulate_st_spec:
  "model (snd (simulate_st inp w)) = model w
   \<and> (\<forall>b<arrays_allocated w. arrays (snd (simulate_st inp w)) b = arrays w b)
   \<and> returned (simulate_st inp w) = simulate (model w) inp"
proof (cases "startState (model w)")
  case None
  then show ?thesis
    by (simp add: simulate_st_def simulate_def new_array_def returned_def)
next
  case (Some start)
  let ?a = "arrays_allocated w"
  let ?w1 = "w\<lparr>arrays := (arrays w)(?a := []), arrays_allocated := Suc ?a\<rparr>"
  let ?e = "\<lparr>state = Some (name (heap (model w) start)), symbol = ascii ''START'',
              remaining = inp, step_error = None\<rparr>"
  have st: "simulate_st inp w = sim_loop_st inp 0 (StateObject start) ?a (push ?a ?e ?w1)"
    using Some by (simp add: simulate_st_def new_array_def)
  have pu: "simulate (model w) inp = sim_loop (model w) inp 0 (StateObject start) [?e]"
    using Some by (simp add: simulate_def)
  from sim_loop_st_spec [of inp 0 "StateObject start" ?a "push ?a ?e ?w1"]
  show ?thesis
    unfolding st pu by (simp add: push_fields push_def)
qed

subsection \<open>The enumeration\<close>

lemma fold_append_blocks:
  assumes "\<And>s rs. s \<in> set A \<Longrightarrow> g s (Inr rs) = Inr (rs @ F s)"
  shows "fold g A (Inr rs) = Inr (rs @ concat (map F A))"
  using assms by (induction A arbitrary: rs) auto

text \<open>When simulate returns on every string, the closure pushes one entry per sequence.\<close>

lemma generate_eq:
  assumes "\<And>x. \<exists>res. simulate d x = Inr res"
  shows "int len \<le> n \<Longrightarrow> m = nat (n - int len) \<Longrightarrow>
   generate d n cur len acc =
     Inr (acc @ map (\<lambda>w. entry_for d (cur @ concat w)) (preorder (alphabet d) m))"
proof (induction m arbitrary: cur len acc)
  case 0
  then have "int len = n" by simp
  moreover obtain res where "simulate d cur = Inr res"
    using assms by blast
  ultimately show ?case
    by (subst generate.simps) (simp add: entry_for_def Let_def)
next
  case (Suc m)
  then have lt: "int len < n" and m: "m = nat (n - int (len + 1))" by auto
  obtain res where res: "simulate d cur = Inr res"
    using assms by blast
  have step: "(case Inr rs of
                 Inl e \<Rightarrow> Inl e
               | Inr rs \<Rightarrow> generate d n (cur @ s) (len + 1) rs) =
                Inr (rs @ map (\<lambda>w. entry_for d (cur @ concat (s # w))) (preorder (alphabet d) m))"
    for s rs
    using Suc.IH [of "len + 1" "cur @ s" rs] lt m by simp
  have "generate d n cur len acc =
          fold (\<lambda>s acc. case acc of
                           Inl e \<Rightarrow> Inl e
                         | Inr rs \<Rightarrow> generate d n (cur @ s) (len + 1) rs) (alphabet d)
            (Inr (acc @ [entry_for d cur]))"
    using lt res by (subst generate.simps) (simp add: entry_for_def Let_def)
  also have "\<dots> = Inr ((acc @ [entry_for d cur]) @
      concat (map (\<lambda>s. map (\<lambda>w. entry_for d (cur @ concat (s # w))) (preorder (alphabet d) m))
               (alphabet d)))"
    by (rule fold_append_blocks) (rule step)
  finally show ?case
    by (simp add: map_concat comp_def)
qed

lemma generateAllStrings_negative: "n < 0 \<Longrightarrow> generateAllStrings d n = Inr []"
  by (simp add: generateAllStrings_def generate.simps)

lemma generateAllStrings_eq:
  assumes "\<forall>r. proto (transitions (heap d r)) = None" and "0 \<le> n"
  shows "generateAllStrings d n =
           Inr (map (\<lambda>w. entry_for d (concat w)) (preorder (alphabet d) (nat n)))"
  using generate_eq [of d 0 n "nat n" "[]" "[]"] simulate_returns [OF assms(1)] assms(2)
  by (simp add: generateAllStrings_def)

lemma length_blocks:
  "length (concat (map (\<lambda>s. map (f s) P) A)) = length A * length P"
  by (induction A) auto

lemma length_preorder: "length (preorder A m) = (\<Sum>k\<le>m. length A ^ k)"
proof (induction m)
  case 0
  then show ?case by simp
next
  case (Suc m)
  have "(\<Sum>k\<le>Suc m. length A ^ k) = 1 + length A * (\<Sum>k\<le>m. length A ^ k)"
    by (simp add: sum.atMost_Suc_shift sum_distrib_left del: sum.atMost_Suc)
  with Suc show ?case by (simp add: length_blocks)
qed

lemma set_preorder: "set (preorder A m) = {w. set w \<subseteq> set A \<and> length w \<le> m}"
proof (induction m)
  case 0
  then show ?case by auto
next
  case (Suc m)
  show ?case
  proof (intro set_eqI iffI)
    fix w assume "w \<in> set (preorder A (Suc m))"
    with Suc show "w \<in> {w. set w \<subseteq> set A \<and> length w \<le> Suc m}" by auto
  next
    fix w assume w: "w \<in> {w. set w \<subseteq> set A \<and> length w \<le> Suc m}"
    show "w \<in> set (preorder A (Suc m))"
    proof (cases w)
      case Nil
      then show ?thesis by simp
    next
      case (Cons s v)
      with w have "s \<in> set A" "v \<in> set (preorder A m)" using Suc by auto
      with Cons show ?thesis by auto
    qed
  qed
qed

lemma filter_blocks:
  "filter p (concat (map (\<lambda>s. map ((#) s) P) A)) =
     concat (map (\<lambda>s. map ((#) s) (filter (\<lambda>w. p (s # w)) P)) A)"
  by (induction A) (auto simp: filter_map comp_def)

lemma filter_length_preorder:
  "L \<le> m \<Longrightarrow> filter (\<lambda>w. length w = L) (preorder A m) = product_lists (replicate L A)"
proof (induction m arbitrary: L)
  case 0
  then show ?case by simp
next
  case (Suc m)
  show ?case
  proof (cases L)
    case 0
    then show ?thesis by (simp add: filter_blocks)
  next
    case (Suc L')
    with Suc.prems have "L' \<le> m" by simp
    from Suc.IH [OF this] Suc show ?thesis
      by (simp add: filter_blocks)
  qed
qed

lemma length_product_replicate: "length (product_lists (replicate L A)) = length A ^ L"
  by (induction L) (auto simp: length_blocks)

lemma sorted_blocks:
  assumes "sorted_wrt (\<lambda>a b. (a, b) \<in> r) B"
    and "sorted_wrt (\<lambda>u v. (u, v) \<in> lexord r) P"
  shows "sorted_wrt (\<lambda>u v. (u, v) \<in> lexord r) (concat (map (\<lambda>s. map ((#) s) P) B))"
  using assms
proof (induction B)
  case Nil
  then show ?case by simp
next
  case (Cons b B)
  have "sorted_wrt (\<lambda>u v. (u, v) \<in> lexord r) (map ((#) b) P)"
    using Cons.prems(2) by (simp add: sorted_wrt_map) (erule sorted_wrt_mono_rel [rotated], simp)
  with Cons show ?case
    by (auto simp: sorted_wrt_append)
qed

lemma sorted_preorder:
  assumes "sorted_wrt (\<lambda>a b. (a, b) \<in> r) A"
  shows "sorted_wrt (\<lambda>u v. (u, v) \<in> lexord r) (preorder A m)"
  by (induction m) (auto simp: sorted_blocks assms)

lemma sorted_precedes: "sorted_wrt (\<lambda>a b. (a, b) \<in> {(a, b). precedes A a b}) A"
  by (auto simp: sorted_wrt_iff_nth_less precedes_def)

text \<open>The two automata, evaluated.\<close>

lemma scenario_results:
  "generateAllStrings scenario 2 =
     Inr [\<lparr>gen_string = epsilon, gen_accepted = Some False\<rparr>,
          \<lparr>gen_string = ascii ''0'', gen_accepted = Some False\<rparr>,
          \<lparr>gen_string = ascii ''00'', gen_accepted = Some False\<rparr>,
          \<lparr>gen_string = ascii ''01'', gen_accepted = Some True\<rparr>,
          \<lparr>gen_string = ascii ''1'', gen_accepted = Some True\<rparr>,
          \<lparr>gen_string = ascii ''10'', gen_accepted = Some False\<rparr>,
          \<lparr>gen_string = ascii ''11'', gen_accepted = Some True\<rparr>]"
  by (simp add: generateAllStrings_def generate.simps simulate_def sim_loop.simps Let_def
      get_unit_def truthy_val_def name_of_def isAccept_of_def entry_of_def display_def
      truthy_def scenario_defs)

lemma inherited_eval:
  "inherited = \<lparr>heap = (\<lambda>_. blank_State)(0 := scenario_q0\<lparr>transitions :=
        \<lparr>own = [(ascii ''1'', 1), (ascii ''0'', 0)], proto = Some 1\<rparr>\<rparr>, Suc 0 := scenario_q1),
     allocated = 2, states = [0, 1], alphabet = wide_alphabet,
     startState = Some 0, currentState = None, stateIdCounter = 2\<rparr>"
  by (simp add: inherited_def addTransition_def setAlphabet_def Let_def set_entry_def
      new_Set_def Set_add_def wide_alphabet_def delete_invalid_def scenario_defs fun_upd_twist
      AList.delete_eq)

lemma inherited_accepted: "fst (addTransition 0 1 (ascii ''__proto__'') (setAlphabet wide_alphabet scenario))"
  by (simp add: addTransition_def setAlphabet_def Let_def new_Set_def Set_add_def
      wide_alphabet_def ascii_def)

lemmas inherited_defs =
  inherited_eval simulate_def sim_loop.simps Let_def get_unit_def truthy_val_def name_of_def
  isAccept_of_def wide_alphabet_def scenario_defs

lemma inherited_simulate_1:
  "simulate inherited (ascii ''1'') =
     Inr \<lparr>accepted = Some True, error = None, finalState = Some (ascii ''q1''),
          trace = [\<lparr>state = Some (ascii ''q0''), symbol = ascii ''START'',
                    remaining = ascii ''1'', step_error = None\<rparr>,
                   \<lparr>state = Some (ascii ''q1''), symbol = ascii ''1'', remaining = [],
                    step_error = None\<rparr>]\<rparr>"
  by (simp add: inherited_defs)

lemma inherited_simulate_x:
  "simulate inherited (ascii ''x'') =
     Inr \<lparr>accepted = None, error = None, finalState = None,
          trace = [\<lparr>state = Some (ascii ''q0''), symbol = ascii ''START'',
                    remaining = ascii ''x'', step_error = None\<rparr>,
                   \<lparr>state = None, symbol = ascii ''x'', remaining = [],
                    step_error = None\<rparr>]\<rparr>"
  by (simp add: inherited_defs)

lemma inherited_simulate_x0: "simulate inherited (ascii ''x0'') = Inl TypeError"
  by (simp add: inherited_defs)

lemma inherited_generate: "generateAllStrings inherited 2 = Inl TypeError"
  by (simp add: generateAllStrings_def generate.simps entry_of_def display_def truthy_def
      inherited_defs)

section \<open>Simulation\<close>

text \<open>
  Claim C3. With a start state set, an input whose every symbol is in the alphabet and
  whose walk from the start state finds a transition at every step is simulated without
  error: simulate returns, \<open>accepted\<close> is the \<open>isAccept\<close> flag of the state reached,
  \<open>finalState\<close> is its name, and the trace has \<open>length input + 1\<close> entries, the START
  entry followed, for each position \<open>j\<close>, by the name of the state reached after
  \<open>j + 1\<close> symbols, the symbol at \<open>j\<close> and the input after position \<open>j\<close>.
\<close>

theorem simulate_success:
  assumes "startState d = Some q0"
    and "\<forall>c\<in>set inp. [c] \<in> set (alphabet d)"
    and "reach d q0 inp = Some q"
  shows "\<exists>res. simulate d inp = Inr res
       \<and> error res = None
       \<and> accepted res = Some (isAccept (heap d q))
       \<and> finalState res = Some (name (heap d q))
       \<and> length (trace res) = length inp + 1
       \<and> trace res ! 0 =
           \<lparr>state = Some (name (heap d q0)), symbol = ascii ''START'', remaining = inp,
            step_error = None\<rparr>
       \<and> (\<forall>j<length inp. \<exists>qj. reach d q0 (take (Suc j) inp) = Some qj \<and>
             trace res ! Suc j =
               \<lparr>state = Some (name (heap d qj)), symbol = [inp ! j],
                remaining = drop (Suc j) inp, step_error = None\<rparr>)"
proof -
  let ?tr = "start_entry d q0 inp # map (step_entry d q0 inp) [0..<length inp] @ []"
  let ?res = "\<lparr>accepted = Some (isAccept (heap d q)), error = None,
               finalState = Some (name (heap d q)), trace = ?tr\<rparr>"
  have sim: "simulate d inp = Inr ?res"
    using simulate_finish [OF assms] by simp
  have r: "reach d q0 (take (length inp) inp) = Some q"
    using assms(3) by simp
  have tr: "trace ?res = ?tr" by simp
  show ?thesis
    using recorded_entries [OF r tr] sim by (intro exI [of _ ?res]) simp
qed

text \<open>Scenario 3 of the specification: the input "01" ends in \<open>q1\<close> and is accepted.\<close>

theorem simulate_success_witness:
  "startState scenario = Some 0
   \<and> reach scenario 0 (ascii ''01'') = Some 1
   \<and> (\<exists>res. simulate scenario (ascii ''01'') = Inr res
        \<and> error res = None
        \<and> accepted res = Some True
        \<and> finalState res = Some (ascii ''q1'')
        \<and> length (trace res) = 3)"
proof -
  have h1: "startState scenario = Some 0"
    by (simp add: scenario_defs)
  have h2: "\<forall>c\<in>set (ascii ''01''). [c] \<in> set (alphabet scenario)"
    by (simp add: scenario_defs)
  have h3: "reach scenario 0 (ascii ''01'') = Some 1"
    by (simp add: scenario_defs)
  have e: "isAccept (heap scenario 1) = True" "name (heap scenario 1) = ascii ''q1''"
    "length (ascii ''01'') + 1 = 3"
    by (simp_all add: scenario_defs)
  from simulate_success [OF h1 h2 h3] obtain res where
    "simulate scenario (ascii ''01'') = Inr res" "error res = None"
    "accepted res = Some (isAccept (heap scenario 1))"
    "finalState res = Some (name (heap scenario 1))"
    "length (trace res) = length (ascii ''01'') + 1"
    by blast
  then have "simulate scenario (ascii ''01'') = Inr res \<and> error res = None
        \<and> accepted res = Some True \<and> finalState res = Some (ascii ''q1'')
        \<and> length (trace res) = 3"
    by (simp only: e)
  with h1 h3 show ?thesis by blast
qed

text \<open>
  Claim C5. With a start state set, if the first \<open>i\<close> symbols are walkable and the symbol
  at position \<open>i\<close> is not in the alphabet, simulate returns \<open>accepted = false\<close> and the
  error "Symbol 'c' not in alphabet" for that symbol \<open>c\<close>; the trace returned is the
  \<open>i + 1\<close> entries recorded so far, with none added for position \<open>i\<close>.
\<close>

theorem simulate_symbol_not_in_alphabet:
  assumes "startState d = Some q0"
    and "i < length inp"
    and "\<forall>j<i. [inp ! j] \<in> set (alphabet d)"
    and "reach d q0 (take i inp) = Some q"
    and "[inp ! i] \<notin> set (alphabet d)"
  shows "\<exists>res. simulate d inp = Inr res
       \<and> accepted res = Some False
       \<and> error res =
           Some (ascii ''Symbol '' @ apostrophe @ [inp ! i] @ apostrophe
                 @ ascii '' not in alphabet'')
       \<and> finalState res = None
       \<and> length (trace res) = i + 1
       \<and> trace res ! 0 =
           \<lparr>state = Some (name (heap d q0)), symbol = ascii ''START'', remaining = inp,
            step_error = None\<rparr>
       \<and> (\<forall>j<i. \<exists>qj. reach d q0 (take (Suc j) inp) = Some qj \<and>
             trace res ! Suc j =
               \<lparr>state = Some (name (heap d qj)), symbol = [inp ! j],
                remaining = drop (Suc j) inp, step_error = None\<rparr>)"
proof -
  let ?tr = "start_entry d q0 inp # map (step_entry d q0 inp) [0..<i] @ []"
  let ?res = "\<lparr>accepted = Some False,
       error = Some (ascii ''Symbol '' @ apostrophe @ [inp ! i] @ apostrophe
                     @ ascii '' not in alphabet''),
       finalState = None, trace = ?tr\<rparr>"
  have sim: "simulate d inp = Inr ?res"
    using simulate_bad_symbol [OF assms] by simp
  have tr: "trace ?res = ?tr" by simp
  show ?thesis
    using recorded_entries [OF assms(4) tr] sim by (intro exI [of _ ?res]) simp
qed

text \<open>Scenario 4 of the specification: the input "2".\<close>

theorem simulate_symbol_not_in_alphabet_witness:
  "startState scenario = Some 0
   \<and> 0 < length (ascii ''2'')
   \<and> reach scenario 0 (take 0 (ascii ''2'')) = Some 0
   \<and> [ascii ''2'' ! 0] \<notin> set (alphabet scenario)
   \<and> (\<exists>res. simulate scenario (ascii ''2'') = Inr res
        \<and> accepted res = Some False
        \<and> error res = Some (ascii ''Symbol '' @ apostrophe @ ascii ''2'' @ apostrophe
                            @ ascii '' not in alphabet'')
        \<and> length (trace res) = 1)"
proof -
  have h1: "startState scenario = Some 0"
    by (simp add: scenario_defs)
  have h2: "0 < length (ascii ''2'')"
    by (simp add: scenario_defs)
  have h3: "\<forall>j<0. [ascii ''2'' ! j] \<in> set (alphabet scenario)"
    by simp
  have h4: "reach scenario 0 (take 0 (ascii ''2'')) = Some 0"
    by simp
  have h5: "[ascii ''2'' ! 0] \<notin> set (alphabet scenario)"
    by (simp add: scenario_defs)
  have e: "[ascii ''2'' ! 0] = ascii ''2''"
    by (simp add: ascii_def)
  from simulate_symbol_not_in_alphabet [OF h1 h2 h3 h4 h5] obtain res where
    "simulate scenario (ascii ''2'') = Inr res" "accepted res = Some False"
    "error res = Some (ascii ''Symbol '' @ apostrophe @ [ascii ''2'' ! 0] @ apostrophe
                       @ ascii '' not in alphabet'')"
    "length (trace res) = 0 + 1"
    by blast
  then have "simulate scenario (ascii ''2'') = Inr res \<and> accepted res = Some False
        \<and> error res = Some (ascii ''Symbol '' @ apostrophe @ ascii ''2'' @ apostrophe
                            @ ascii '' not in alphabet'')
        \<and> length (trace res) = 1"
    by (simp only: e) simp
  with h1 h2 h4 h5 show ?thesis by blast
qed

text \<open>
  Claim C6 does not hold of the code. In the automaton \<open>inherited\<close> the symbol "x" is in
  the alphabet and \<open>q0\<close> has no transition for it (its table has no such entry), but
  the read \<open>current.transitions["x"]\<close> finds the coordinate \<open>x = 200\<close> of \<open>q1\<close>, the
  prototype of the table: simulate("x") takes the number as the next state, appends an
  entry with no error mark and returns no error, with \<open>accepted\<close> and \<open>finalState\<close>
  undefined; on "x0" it throws.
\<close>

theorem simulate_reads_prototype:
  "startState inherited = Some 0
   \<and> ascii ''x'' \<in> set (alphabet inherited)
   \<and> map_of (own (transitions (heap inherited 0))) (ascii ''x'') = None
   \<and> simulate inherited (ascii ''x'') =
       Inr \<lparr>accepted = None, error = None, finalState = None,
            trace = [\<lparr>state = Some (ascii ''q0''), symbol = ascii ''START'',
                      remaining = ascii ''x'', step_error = None\<rparr>,
                     \<lparr>state = None, symbol = ascii ''x'', remaining = [],
                      step_error = None\<rparr>]\<rparr>
   \<and> simulate inherited (ascii ''x0'') = Inl TypeError"
  by (simp add: inherited_simulate_x inherited_simulate_x0)
     (simp add: inherited_eval wide_alphabet_def scenario_defs)

text \<open>
  Claim C9. A call of simulate writes only to the array it creates: it leaves the
  model as it was (states, transition tables, alphabet and start reference) and the
  arrays that existed before as they were. What it hands to the caller is determined by
  the input and the model, so a second call with the same input on the store that the
  first call left hands back the same.
\<close>

theorem simulate_pure:
  "model (snd (simulate_st inp w)) = model w
   \<and> (\<forall>b<arrays_allocated w. arrays (snd (simulate_st inp w)) b = arrays w b)
   \<and> returned (simulate_st inp w) = simulate (model w) inp
   \<and> returned (simulate_st inp (snd (simulate_st inp w))) = returned (simulate_st inp w)"
proof -
  note first = simulate_st_spec [of inp w]
  note second = simulate_st_spec [of inp "snd (simulate_st inp w)"]
  from first second
  have "returned (simulate_st inp (snd (simulate_st inp w))) = returned (simulate_st inp w)"
    by simp
  with first show ?thesis by blast
qed

text \<open>
  The input "01" on a store that holds the scenario and one earlier array: the model
  and that array are as before, and the call made again returns the same.
\<close>

theorem simulate_pure_witness:
  "(0::nat) < arrays_allocated scenario_world
   \<and> model (snd (simulate_st (ascii ''01'') scenario_world)) = scenario
   \<and> arrays (snd (simulate_st (ascii ''01'') scenario_world)) 0 = arrays scenario_world 0
   \<and> returned (simulate_st (ascii ''01'') (snd (simulate_st (ascii ''01'') scenario_world)))
       = returned (simulate_st (ascii ''01'') scenario_world)"
proof -
  note c = simulate_pure [of "ascii ''01''" scenario_world]
  have h: "(0::nat) < arrays_allocated scenario_world" "model scenario_world = scenario"
    by (simp_all add: scenario_world_def)
  from c h(1) have "arrays (snd (simulate_st (ascii ''01'') scenario_world)) 0
      = arrays scenario_world 0"
    by blast
  with c h show ?thesis by simp
qed

section \<open>Mutation\<close>

text \<open>
  Claim C7 does not hold of the code. setAlphabet deletes the own entries of the tables
  whose symbol has left the alphabet, and replaces the alphabet as claimed; but the
  transition on \<open>__proto__\<close> that addTransition accepted in \<open>inherited\<close> is the prototype
  of the table of \<open>q0\<close>, which \<open>Object.keys\<close> does not list. After
  \<open>setAlphabet(['0', '1'])\<close> the table of \<open>q0\<close> still gives \<open>q1\<close> for \<open>__proto__\<close> and the
  number 200 for \<open>x\<close>, two symbols that are not in the new alphabet.
\<close>

theorem setAlphabet_keeps_prototype:
  "fst (addTransition 0 1 (ascii ''__proto__'') (setAlphabet wide_alphabet scenario))
   \<and> alphabet (setAlphabet [ascii ''0'', ascii ''1''] inherited) = [ascii ''0'', ascii ''1'']
   \<and> 0 \<in> set (states (setAlphabet [ascii ''0'', ascii ''1''] inherited))
   \<and> ascii ''__proto__'' \<notin> set [ascii ''0'', ascii ''1'']
   \<and> ascii ''x'' \<notin> set [ascii ''0'', ascii ''1'']
   \<and> get_proto (transitions (heap (setAlphabet [ascii ''0'', ascii ''1''] inherited) 0)) = Some 1
   \<and> get_unit (setAlphabet [ascii ''0'', ascii ''1''] inherited)
        (transitions (heap (setAlphabet [ascii ''0'', ascii ''1''] inherited) 0)) 0x78
        = Number 200"
proof -
  let ?d = "setAlphabet [ascii ''0'', ascii ''1''] inherited"
  have "alphabet ?d = [ascii ''0'', ascii ''1'']"
    and "0 \<in> set (states ?d)"
    and "ascii ''__proto__'' \<notin> set [ascii ''0'', ascii ''1'']"
    and "ascii ''x'' \<notin> set [ascii ''0'', ascii ''1'']"
    and "get_proto (transitions (heap ?d 0)) = Some 1"
    and "get_unit ?d (transitions (heap ?d 0)) 0x78 = Number 200"
    by (simp_all add: inherited_eval setAlphabet_def Let_def new_Set_def Set_add_def
        delete_invalid_def get_proto_def get_unit_def AList.delete_eq scenario_defs)
  with inherited_accepted show ?thesis by blast
qed

text \<open>
  Claim C8 does not hold of the code. removeState splices the state out, clears the
  start reference when it was that state and deletes the own entries that target it,
  and does nothing when no state has the identity; but in \<open>inherited\<close> the removed
  state \<open>q1\<close> is the prototype of the table of \<open>q0\<close>, which \<open>Object.keys\<close> does not list
  and \<open>delete\<close> cannot remove. After \<open>removeState(1)\<close> the table of the remaining state
  \<open>q0\<close> still gives \<open>q1\<close> for \<open>__proto__\<close>, and simulate still reads \<open>q1\<close> through it.
\<close>

theorem removeState_keeps_prototype:
  "state_id (heap inherited 1) = 1
   \<and> states (removeState 1 inherited) = [0]
   \<and> get_proto (transitions (heap (removeState 1 inherited) 0)) = Some 1
   \<and> get_unit (removeState 1 inherited)
        (transitions (heap (removeState 1 inherited) 0)) 0x78
        = Number (state_x (heap inherited 1))
   \<and> state_x (heap inherited 1) = 200"
  by (simp add: inherited_eval removeState_def Let_def delete_targets_def get_proto_def
      get_unit_def AList.delete_eq scenario_defs)

text \<open>
  Claim C10. A freshly constructed automaton has the alphabet \<open>{"0", "1"}\<close>, no states,
  no start state and identity counter 0. No operation other than setAlphabet changes
  the alphabet, so as long as it is the initial one, addTransition on "0" and on "1"
  succeeds and records the transition, and an input of these two symbols that is
  walkable from the start state is simulated without error.
\<close>

theorem new_DFA_default:
  "alphabet new_DFA = [ascii ''0'', ascii ''1'']
   \<and> states new_DFA = [] \<and> startState new_DFA = None \<and> stateIdCounter new_DFA = 0
   \<and> (\<forall>d px py nm fromState toState symb stateId.
         alphabet (snd (addState px py nm d)) = alphabet d
       \<and> alphabet (snd (addTransition fromState toState symb d)) = alphabet d
       \<and> alphabet (removeTransition fromState symb d) = alphabet d
       \<and> alphabet (removeState stateId d) = alphabet d)
   \<and> (\<forall>d fromState toState symb.
         alphabet d = alphabet new_DFA \<and> (symb = ascii ''0'' \<or> symb = ascii ''1'') \<longrightarrow>
           fst (addTransition fromState toState symb d)
         \<and> map_of (own (transitions (heap (snd (addTransition fromState toState symb d))
                                        fromState)))
             symb = Some toState)
   \<and> (\<forall>d q0 inp q.
         alphabet d = alphabet new_DFA \<and> startState d = Some q0
         \<and> set inp \<subseteq> set (ascii ''01'') \<and> reach d q0 inp = Some q \<longrightarrow>
           (\<exists>res. simulate d inp = Inr res
              \<and> error res = None
              \<and> accepted res = Some (isAccept (heap d q))
              \<and> finalState res = Some (name (heap d q))))"
proof (intro conjI allI impI)
  show "alphabet new_DFA = [ascii ''0'', ascii ''1'']"
    by (rule alphabet_new_DFA)
  show "states new_DFA = []" "startState new_DFA = None" "stateIdCounter new_DFA = 0"
    by (simp_all add: new_DFA_def)
next
  fix d :: DFA and px py nm fromState toState symb stateId
  show "alphabet (snd (addState px py nm d)) = alphabet d"
    by (rule alphabet_addState)
  show "alphabet (snd (addTransition fromState toState symb d)) = alphabet d"
    by (rule alphabet_addTransition)
  show "alphabet (removeTransition fromState symb d) = alphabet d"
    by (rule alphabet_removeTransition)
  show "alphabet (removeState stateId d) = alphabet d"
    by (rule alphabet_removeState)
next
  fix d :: DFA and fromState toState symb
  assume a: "alphabet d = alphabet new_DFA \<and> (symb = ascii ''0'' \<or> symb = ascii ''1'')"
  then have "symb \<in> set (alphabet d)" and "symb \<noteq> ascii ''__proto__''"
    by (auto simp: alphabet_new_DFA ascii_def)
  from addTransition_ok [OF this]
  show "fst (addTransition fromState toState symb d)"
    and "map_of (own (transitions (heap (snd (addTransition fromState toState symb d))
                                     fromState)))
             symb = Some toState"
    by simp_all
next
  fix d :: DFA and q0 inp q
  assume a: "alphabet d = alphabet new_DFA \<and> startState d = Some q0
         \<and> set inp \<subseteq> set (ascii ''01'') \<and> reach d q0 inp = Some q"
  then have "\<forall>c\<in>set inp. [c] \<in> set (alphabet d)"
    by (auto simp: alphabet_new_DFA ascii_def)
  with a have sim: "simulate d inp =
           Inr \<lparr>accepted = Some (isAccept (heap d q)), error = None,
                finalState = Some (name (heap d q)),
                trace = start_entry d q0 inp # map (step_entry d q0 inp) [0..<length inp]\<rparr>"
    by (intro simulate_finish) simp_all
  show "\<exists>res. simulate d inp = Inr res
              \<and> error res = None
              \<and> accepted res = Some (isAccept (heap d q))
              \<and> finalState res = Some (name (heap d q))"
    by (simp add: sim)
qed

text \<open>A transition on "1" added to the fresh automaton, and the input "01" on the scenario.\<close>

theorem new_DFA_default_witness:
  "alphabet scenario = alphabet new_DFA
   \<and> fst (addTransition 0 1 (ascii ''1'') new_DFA)
   \<and> map_of (own (transitions (heap (snd (addTransition 0 1 (ascii ''1'') new_DFA)) 0)))
       (ascii ''1'') = Some 1
   \<and> startState scenario = Some 0
   \<and> set (ascii ''01'') \<subseteq> set (ascii ''01'')
   \<and> reach scenario 0 (ascii ''01'') = Some 1
   \<and> (\<exists>res. simulate scenario (ascii ''01'') = Inr res
        \<and> error res = None \<and> accepted res = Some True)"
proof -
  note c = new_DFA_default
  have h1: "alphabet scenario = alphabet new_DFA"
    using c by (simp add: scenario_defs)
  have h2: "alphabet new_DFA = alphabet new_DFA
      \<and> (ascii ''1'' = ascii ''0'' \<or> ascii ''1'' = ascii ''1'')"
    by simp
  have a: "fst (addTransition 0 1 (ascii ''1'') new_DFA)
      \<and> map_of (own (transitions (heap (snd (addTransition 0 1 (ascii ''1'') new_DFA)) 0)))
          (ascii ''1'') = Some 1"
    using c h2 by blast
  have h3: "startState scenario = Some 0" "reach scenario 0 (ascii ''01'') = Some 1"
    by (simp_all add: scenario_defs)
  have "alphabet scenario = alphabet new_DFA \<and> startState scenario = Some 0
         \<and> set (ascii ''01'') \<subseteq> set (ascii ''01'') \<and> reach scenario 0 (ascii ''01'') = Some 1"
    using h1 h3 by simp
  with c have "\<exists>res. simulate scenario (ascii ''01'') = Inr res
         \<and> error res = None
         \<and> accepted res = Some (isAccept (heap scenario 1))
         \<and> finalState res = Some (name (heap scenario 1))"
    by blast
  moreover have "isAccept (heap scenario 1) = True"
    by (simp add: scenario_defs)
  ultimately have "\<exists>res. simulate scenario (ascii ''01'') = Inr res
        \<and> error res = None \<and> accepted res = Some True"
    by auto
  with h1 a h3 show ?thesis by simp
qed

section \<open>Enumeration\<close>

lemma gen_strings_eq: "map (gen_string \<circ> (\<lambda>w. entry_for d (concat w))) ws = map (\<lambda>w. display (concat w)) ws"
  by (simp add: entry_for_def entry_of_def)

text \<open>
  Claim C1, as stated, fails: the result list is not ordered by increasing string
  length. On the scenario with bound 2 the entry "00" (position 2) comes before the
  entry "1" (position 4), because the closure recurses into the extensions of a string
  before it goes on to the next symbol.
\<close>

theorem generateAllStrings_order_counterexample:
  "generateAllStrings scenario 2 =
     Inr [\<lparr>gen_string = epsilon, gen_accepted = Some False\<rparr>,
          \<lparr>gen_string = ascii ''0'', gen_accepted = Some False\<rparr>,
          \<lparr>gen_string = ascii ''00'', gen_accepted = Some False\<rparr>,
          \<lparr>gen_string = ascii ''01'', gen_accepted = Some True\<rparr>,
          \<lparr>gen_string = ascii ''1'', gen_accepted = Some True\<rparr>,
          \<lparr>gen_string = ascii ''10'', gen_accepted = Some False\<rparr>,
          \<lparr>gen_string = ascii ''11'', gen_accepted = Some True\<rparr>]
   \<and> length (gen_string (projr (generateAllStrings scenario 2) ! 2)) = 2
   \<and> length (gen_string (projr (generateAllStrings scenario 2) ! 4)) = 1
   \<and> \<not> sorted (map (length \<circ> gen_string) (projr (generateAllStrings scenario 2)))"
  by (simp add: scenario_results) (simp add: ascii_def epsilon_def)

text \<open>
  Claim C1, amended. For an automaton whose transition tables all have the default
  prototype (no transition on the symbol \<open>__proto__\<close> has been added) and \<open>n \<ge> 0\<close>,
  generateAllStrings returns a list. Its strings are the concatenations of a list \<open>ws\<close>
  of symbol sequences (the empty one shown as \<epsilon>) that is in depth-first order, which is
  the lexicographic order over the alphabet's iteration order with a sequence before
  its extensions, not the order of increasing length. Every sequence has at most \<open>n\<close>
  symbols of the alphabet, and for each length \<open>L \<le> n\<close> the sequences of \<open>L\<close> symbols,
  in the order in which they occur, are all \<open>|alphabet| ^ L\<close> of them in lexicographic
  order (\<open>product_lists\<close> lists the Cartesian product with the first component varying
  slowest).
\<close>

theorem generateAllStrings_order:
  assumes "0 \<le> n"
    and "\<forall>r. proto (transitions (heap d r)) = None"
  shows "\<exists>results ws. generateAllStrings d n = Inr results
     \<and> map gen_string results = map (\<lambda>w. display (concat w)) ws
     \<and> sorted_wrt (\<lambda>u v. (u, v) \<in> lexord {(a, b). precedes (alphabet d) a b}) ws
     \<and> (\<forall>w\<in>set ws. set w \<subseteq> set (alphabet d) \<and> length w \<le> nat n)
     \<and> (\<forall>L\<le>nat n. filter (\<lambda>w. length w = L) ws = product_lists (replicate L (alphabet d))
                  \<and> length (filter (\<lambda>w. length w = L) ws) = length (alphabet d) ^ L)"
proof (intro exI conjI)
  let ?ws = "preorder (alphabet d) (nat n)"
  let ?results = "map (\<lambda>w. entry_for d (concat w)) ?ws"
  show "generateAllStrings d n = Inr ?results"
    using assms(2,1) by (rule generateAllStrings_eq)
  show "map gen_string ?results = map (\<lambda>w. display (concat w)) ?ws"
    by (simp add: gen_strings_eq)
  show "sorted_wrt (\<lambda>u v. (u, v) \<in> lexord {(a, b). precedes (alphabet d) a b}) ?ws"
    by (rule sorted_preorder) (rule sorted_precedes)
  show "\<forall>w\<in>set ?ws. set w \<subseteq> set (alphabet d) \<and> length w \<le> nat n"
    by (simp add: set_preorder)
  show "\<forall>L\<le>nat n. filter (\<lambda>w. length w = L) ?ws = product_lists (replicate L (alphabet d))
                  \<and> length (filter (\<lambda>w. length w = L) ?ws) = length (alphabet d) ^ L"
    by (simp add: filter_length_preorder length_product_replicate)
qed

text \<open>On the scenario with bound 2: the sequences of one symbol are 0, 1, and four have two symbols.\<close>

theorem generateAllStrings_order_witness:
  "(0::int) \<le> 2
   \<and> (\<exists>results ws. generateAllStrings scenario 2 = Inr results
          \<and> map gen_string results = map (\<lambda>w. display (concat w)) ws
          \<and> filter (\<lambda>w. length w = 1) ws = [ascii ''0''] # [ascii ''1''] # Nil
          \<and> length (filter (\<lambda>w. length w = 2) ws) = 4)"
proof -
  have h: "(0::int) \<le> 2" by simp
  have p: "\<forall>r. proto (transitions (heap scenario r)) = None"
    by (simp add: scenario_defs)
  from generateAllStrings_order [OF h p] obtain results ws where
    r: "generateAllStrings scenario 2 = Inr results"
    and ws: "map gen_string results = map (\<lambda>w. display (concat w)) ws"
    and lv: "\<forall>L\<le>nat 2. filter (\<lambda>w. length w = L) ws
                 = product_lists (replicate L (alphabet scenario))
               \<and> length (filter (\<lambda>w. length w = L) ws) = length (alphabet scenario) ^ L"
    by blast
  have "(1::nat) \<le> nat 2" "(2::nat) \<le> nat 2" by simp_all
  with lv have "filter (\<lambda>w. length w = 1) ws = product_lists (replicate 1 (alphabet scenario))"
    and "length (filter (\<lambda>w. length w = 2) ws) = length (alphabet scenario) ^ 2"
    by blast+
  moreover have "product_lists (replicate 1 (alphabet scenario)) = [ascii ''0''] # [ascii ''1''] # Nil"
    "length (alphabet scenario) ^ 2 = 4"
    by (simp_all add: scenario_def power2_eq_square)
  ultimately show ?thesis
    using h r ws by auto
qed

text \<open>What the enumeration returns when every table has the default prototype.\<close>

lemma generateAllStrings_default_size:
  assumes "0 \<le> n" and "\<forall>r. proto (transitions (heap d r)) = None"
  shows "\<exists>results. generateAllStrings d n = Inr results
     \<and> length results = (\<Sum>k\<le>nat n. length (alphabet d) ^ k)
     \<and> hd results = entry_for d [] \<and> gen_string (hd results) = epsilon"
proof -
  let ?ws = "preorder (alphabet d) (nat n)"
  have "?ws \<noteq> []" "hd ?ws = []"
    by (cases "nat n"; simp)+
  then have "hd (map (\<lambda>w. entry_for d (concat w)) ?ws) = entry_for d []"
    by (simp add: hd_map)
  moreover have "gen_string (entry_for d []) = epsilon"
    by (simp add: entry_for_def entry_of_def display_def)
  ultimately show ?thesis
    using generateAllStrings_eq [OF assms(2,1)]
    by (simp add: length_preorder)
qed

text \<open>
  Claim C2 does not hold of the code. On an automaton whose tables have the default
  prototype the result has \<open>\<Sum>k\<le>n. m ^ k\<close> entries, the first one \<epsilon>; but on \<open>inherited\<close>, an automaton built by setAlphabet and an addTransition that
  returned true, \<open>generateAllStrings(2)\<close> returns no list: simulate("x0") throws a
  TypeError, which ends the enumeration.
\<close>

theorem generateAllStrings_throws:
  "fst (addTransition 0 1 (ascii ''__proto__'') (setAlphabet wide_alphabet scenario))
   \<and> (0::int) \<le> 2
   \<and> length (alphabet inherited) = 4
   \<and> generateAllStrings inherited 2 = Inl TypeError"
proof -
  have "(0::int) \<le> 2" and "length (alphabet inherited) = 4"
    by (simp_all add: inherited_eval wide_alphabet_def)
  with inherited_accepted inherited_generate show ?thesis by blast
qed

text \<open>
  Claim C4 does not hold of the code. Where generateAllStrings returns, each entry
  carries the verdict of simulate on its string; but on \<open>inherited\<close> the string "1" is
  over the alphabet, of length 1, and simulate("1") returns accepted and no error,
  while \<open>generateAllStrings(2)\<close> throws and so has no entry for "1".
\<close>

theorem acceptance_without_entry:
  "ascii ''1'' \<in> set (alphabet inherited)
   \<and> int (length (ascii ''1'')) \<le> 2
   \<and> (\<exists>res. simulate inherited (ascii ''1'') = Inr res
        \<and> accepted res = Some True \<and> \<not> truthy (error res))
   \<and> generateAllStrings inherited 2 = Inl TypeError"
proof -
  have "ascii ''1'' \<in> set (alphabet inherited)" and "int (length (ascii ''1'')) \<le> 2"
    by (simp_all add: inherited_eval wide_alphabet_def ascii_def)
  moreover have "\<exists>res. simulate inherited (ascii ''1'') = Inr res
        \<and> accepted res = Some True \<and> \<not> truthy (error res)"
    by (simp add: inherited_simulate_1 truthy_def)
  ultimately show ?thesis
    using inherited_generate by blast
qed

end
